theory Spec2Isabelle
  imports Main
begin

section \<open>The benchmark runner of \<^verbatim>\<open>bench_pt_op/__main__.py\<close>\<close>

subsection \<open>Data\<close>

text \<open>
  The namespace returned by \<^verbatim>\<open>parse_args\<close>: \<^verbatim>\<open>--forward-only\<close> is a
  \<^verbatim>\<open>store_true\<close> flag, \<^verbatim>\<open>--only-run\<close> a string that is \<^verbatim>\<open>None\<close> when absent.
\<close>

record args =
  forward_only :: bool
  only_run :: "string option"

text \<open>
  A raised object. The handler at line 36 is \<^verbatim>\<open>except Exception\<close>: it takes the
  instances of \<^verbatim>\<open>Exception\<close> and lets every other raised object
  (\<^verbatim>\<open>KeyboardInterrupt\<close>, \<^verbatim>\<open>SystemExit\<close>, \<^verbatim>\<open>GeneratorExit\<close>, direct subclasses
  of \<^verbatim>\<open>BaseException\<close>) pass. \<open>str_of\<close> is how the call \<^verbatim>\<open>str(err)\<close> ends, which
  the f-string of line 38 makes: \<^verbatim>\<open>__str__\<close> is code of the raised object, it gives a
  string or raises an object of its own. \<open>trace\<close> is what \<^verbatim>\<open>traceback.print_exc()\<close>
  writes for the object, and \<open>uncaught_status\<close> the status with which the interpreter ends
  when the object leaves the script (1 after an uncaught exception, the code of a
  \<^verbatim>\<open>SystemExit\<close>).
\<close>

datatype fault =
  Fault (is_Exception: bool) (str_of: "fault + string") (trace: "string list")
    (uncaught_status: nat)

text \<open>How one call \<^verbatim>\<open>func(args)\<close> ends; a call that ends is all that is modelled.\<close>

datatype outcome = Returns | Raises fault

text \<open>
  A runnable is foreign code with effects of its own: it reads and changes a world \<open>'w\<close>
  (device state, globals, whatever it prints) that the runner never touches.
\<close>

type_synonym 'w runnable = "args \<Rightarrow> 'w \<Rightarrow> outcome \<times> 'w"

text \<open>
  What the runner itself does, in order: a \<^verbatim>\<open>print\<close> call, a
  \<^verbatim>\<open>traceback.print_exc()\<close> call, and the call of the runnable at a plan position.
\<close>

datatype event = Print string | PrintExc fault | Invoke nat string

record 'w pstate =
  log :: "event list"
  world :: 'w

text \<open>How \<^verbatim>\<open>main\<close> ends: it returns, or a fault leaves it.\<close>

datatype run_end = Returned | Propagated fault

subsection \<open>Built-ins of the language\<close>

text \<open>\<^verbatim>\<open>s.startswith(f)\<close> and \<^verbatim>\<open>f in s\<close> on strings.\<close>

fun starts_with :: "string \<Rightarrow> string \<Rightarrow> bool" where
  "starts_with [] s = True"
| "starts_with (c # f) [] = False"
| "starts_with (c # f) (d # s) = (c = d \<and> starts_with f s)"

fun str_in :: "string \<Rightarrow> string \<Rightarrow> bool" where
  "str_in f [] = (f = [])"
| "str_in f (c # s) = (starts_with f (c # s) \<or> str_in f s)"

text \<open>The decimal text of a count, as an f-string formats it.\<close>

definition digit_char :: "nat \<Rightarrow> char" where
  "digit_char d = char_of (48 + d)"

fun str_nat :: "nat \<Rightarrow> string" where
  "str_nat n = (if n < 10 then [digit_char n] else str_nat (n div 10) @ [digit_char (n mod 10)])"

declare str_nat.simps [simp del]

definition print :: "string \<Rightarrow> 'w pstate \<Rightarrow> 'w pstate" where
  "print s st = st\<lparr>log := log st @ [Print s]\<rparr>"

definition print_exc :: "fault \<Rightarrow> 'w pstate \<Rightarrow> 'w pstate" where
  "print_exc err st = st\<lparr>log := log st @ [PrintExc err]\<rparr>"

subsection \<open>The selection pass (lines 19 to 29)\<close>

text \<open>The test of line 22, \<^verbatim>\<open>args.only_run is None or args.only_run in name\<close>.\<close>

definition wanted :: "string option \<Rightarrow> string \<Rightarrow> bool" where
  "wanted flt name = (case flt of None \<Rightarrow> True | Some f \<Rightarrow> str_in f name)"

text \<open>
  The loop of lines 21 to 28 over the entries of \<^verbatim>\<open>get_op_list()\<close>, carrying
  \<^verbatim>\<open>funcs\<close>, \<^verbatim>\<open>selected\<close> and \<^verbatim>\<open>total\<close> (here \<open>total_n\<close>).
\<close>

fun select_loop ::
  "string option \<Rightarrow> (string \<times> 'r) list \<Rightarrow> (string \<times> 'r) list \<times> nat \<times> nat \<Rightarrow> 'w pstate
    \<Rightarrow> ((string \<times> 'r) list \<times> nat \<times> nat) \<times> 'w pstate" where
  "select_loop flt [] acc st = (acc, st)"
| "select_loop flt ((name, func) # rest) (funcs, selected, total_n) st =
    (if wanted flt name
     then select_loop flt rest (funcs @ [(name, func)], selected + 1, total_n + 1)
            (print (''Selected '' @ name) st)
     else select_loop flt rest (funcs, selected, total_n + 1)
            (print (''Skipped '' @ name) st))"

definition summary_line :: "nat \<Rightarrow> nat \<Rightarrow> string" where
  "summary_line selected total_n =
     ''Running selected '' @ str_nat selected @ ''/'' @ str_nat total_n @ '' ops''"

text \<open>Lines 19 to 29: the initial values, the loop and the summary.\<close>

definition selection ::
  "string option \<Rightarrow> (string \<times> 'r) list \<Rightarrow> 'w pstate
    \<Rightarrow> ((string \<times> 'r) list \<times> nat \<times> nat) \<times> 'w pstate" where
  "selection flt ops st =
     (case select_loop flt ops ([], 0, 0) st of
        ((funcs, selected, total_n), st1) \<Rightarrow>
          ((funcs, selected, total_n), print (summary_line selected total_n) st1))"

subsection \<open>The execution pass (lines 31 to 38)\<close>

definition progress_line :: "nat \<Rightarrow> nat \<Rightarrow> string \<Rightarrow> string" where
  "progress_line i n name =
     ''['' @ str_nat i @ ''/'' @ str_nat n @ ''] Benchmarking '' @ name"

text \<open>The text of line 38, given the string that \<^verbatim>\<open>str(err)\<close> returned.\<close>

definition failed_line :: "string \<Rightarrow> string \<Rightarrow> string" where
  "failed_line name msg = ''Failed to benchmark '' @ name @ '': '' @ msg"

text \<open>
  The loop of lines 32 to 38 from position \<open>idx\<close> on. A fault that is no instance of
  \<^verbatim>\<open>Exception\<close> is not handled and leaves the loop. In the handler, line 37 prints the
  trace; line 38 then calls \<^verbatim>\<open>str(err)\<close> to build its line, and nothing encloses the
  handler: when that call raises, the line is not printed and the new fault leaves the loop.
\<close>

fun exec_loop ::
  "args \<Rightarrow> nat \<Rightarrow> nat \<Rightarrow> (string \<times> 'w runnable) list \<Rightarrow> 'w pstate \<Rightarrow> run_end \<times> 'w pstate" where
  "exec_loop a n_func idx [] st = (Returned, st)"
| "exec_loop a n_func idx ((name, func) # rest) st =
    (let st1 = print (progress_line (idx + 1) n_func name) st in
     case func a (world st1) of
       (res, w) \<Rightarrow>
         (let st2 = st1\<lparr>log := log st1 @ [Invoke idx name], world := w\<rparr> in
          case res of
            Returns \<Rightarrow> exec_loop a n_func (idx + 1) rest st2
          | Raises err \<Rightarrow>
              if is_Exception err
              then (let st3 = print_exc err st2 in
                    case str_of err of
                      Inr msg \<Rightarrow>
                        exec_loop a n_func (idx + 1) rest (print (failed_line name msg) st3)
                    | Inl err' \<Rightarrow> (Propagated err', st3))
              else (Propagated err, st2)))"

text \<open>\<^verbatim>\<open>main\<close>, with the namespace and the entries of \<^verbatim>\<open>get_op_list()\<close> given.\<close>

definition main ::
  "args \<Rightarrow> (string \<times> 'w runnable) list \<Rightarrow> 'w pstate \<Rightarrow> run_end \<times> 'w pstate" where
  "main a ops st =
     (case selection (only_run a) ops st of
        ((funcs, selected, total_n), st1) \<Rightarrow> exec_loop a (length funcs) 0 funcs st1)"


subsection \<open>Observations used to state the properties\<close>

text \<open>
  An outcome after which the loop of line 32 goes on: a return, or a fault that line 36
  takes and whose \<^verbatim>\<open>str(err)\<close> gives a string.
\<close>

definition recoverable :: "outcome \<Rightarrow> bool" where
  "recoverable r =
     (case r of
        Returns \<Rightarrow> True
      | Raises err \<Rightarrow>
          is_Exception err \<and> (case str_of err of Inr msg \<Rightarrow> True | Inl err' \<Rightarrow> False))"

text \<open>
  The outcomes of the calls \<^verbatim>\<open>func(args)\<close> that the loop of line 32 makes on a plan, in
  order, each runnable starting in the world its predecessor left; the list ends with the
  first outcome that is not recoverable.
\<close>

fun outcomes :: "args \<Rightarrow> (string \<times> 'w runnable) list \<Rightarrow> 'w \<Rightarrow> outcome list" where
  "outcomes a [] w = []"
| "outcomes a ((name, func) # rest) w =
    (case func a w of
       (res, w') \<Rightarrow> res # (if recoverable res then outcomes a rest w' else []))"

text \<open>The line of line 23 or line 27 for one entry.\<close>

definition select_line :: "string option \<Rightarrow> string \<Rightarrow> event" where
  "select_line flt name =
     Print (if wanted flt name then ''Selected '' @ name else ''Skipped '' @ name)"


text \<open>What the handler of lines 36 to 38 prints after a call of the entry \<open>name\<close> has ended.\<close>

definition report :: "string \<Rightarrow> outcome \<Rightarrow> event list" where
  "report name r =
     (case r of
        Returns \<Rightarrow> []
      | Raises err \<Rightarrow>
          if is_Exception err
          then PrintExc err #
               (case str_of err of
                  Inr msg \<Rightarrow> [Print (''Failed to benchmark '' @ name @ '': '' @ msg)]
                | Inl err' \<Rightarrow> [])
          else [])"

text \<open>What the runner does for the entry at 0-based position \<open>i\<close>, given how its call ended.\<close>

definition block :: "nat \<Rightarrow> nat \<Rightarrow> string \<Rightarrow> outcome \<Rightarrow> event list" where
  "block n i name r = [Print (progress_line (i + 1) n name), Invoke i name] @ report name r"

fun blocks :: "nat \<Rightarrow> nat \<Rightarrow> (string \<times> 'r) list \<Rightarrow> outcome list \<Rightarrow> event list" where
  "blocks n i ((name, func) # rest) (r # rs) = block n i name r @ blocks n (i + 1) rest rs"
| "blocks n i plan rs = []"

text \<open>The calls recorded in a log: plan position and name, in order.\<close>

fun invocations :: "event list \<Rightarrow> (nat \<times> string) list" where
  "invocations [] = []"
| "invocations (Invoke i name # es) = (i, name) # invocations es"
| "invocations (e # es) = invocations es"

subsection \<open>Example entries\<close>

text \<open>
  A \<^verbatim>\<open>RuntimeError("oom")\<close>, an instance of \<^verbatim>\<open>Exception\<close>; a
  \<^verbatim>\<open>KeyboardInterrupt\<close> and a \<^verbatim>\<open>SystemExit(3)\<close>, which are not; and an instance of
  \<^verbatim>\<open>Exception\<close> whose \<^verbatim>\<open>__str__\<close> raises a \<^verbatim>\<open>TypeError\<close>. The example runnables
  count their calls in the world.
\<close>

definition oom :: fault where
  "oom = Fault True (Inr ''oom'') [''RuntimeError: oom''] 1"





definition returning :: "nat runnable" where
  "returning a w = (Returns, Suc w)"

definition raising :: "fault \<Rightarrow> nat runnable" where
  "raising err a w = (Raises err, Suc w)"



definition start :: "nat pstate" where
  "start = \<lparr>log = [], world = 0\<rparr>"

definition three_ops :: "(string \<times> nat runnable) list" where
  "three_ops = [(''attn_fwd'', raising oom), (''attn_bwd'', returning), (''linear_fwd'', returning)]"



section \<open>Properties\<close>

subsection \<open>The built-ins\<close>

lemma starts_with_iff: "starts_with f s \<longleftrightarrow> (\<exists>q. s = f @ q)"
  by (induction f s rule: starts_with.induct) auto

text \<open>\<open>str_in f s\<close> says that \<open>f\<close> occurs in \<open>s\<close> as a contiguous run of characters.\<close>

lemma str_in_iff: "str_in f s \<longleftrightarrow> (\<exists>p q. s = p @ f @ q)"
proof (induction s)
  case Nil
  show ?case by simp
next
  case (Cons c s)
  show ?case
  proof
    assume "str_in f (c # s)"
    then consider "starts_with f (c # s)" | "str_in f s" by auto
    then show "\<exists>p q. c # s = p @ f @ q"
    proof cases
      case 1
      then obtain q where "c # s = f @ q" using starts_with_iff by blast
      then have "c # s = [] @ f @ q" by simp
      then show ?thesis by blast
    next
      case 2
      then obtain p q where "s = p @ f @ q" using Cons.IH by blast
      then have "c # s = (c # p) @ f @ q" by simp
      then show ?thesis by blast
    qed
  next
    assume "\<exists>p q. c # s = p @ f @ q"
    then obtain p q where pq: "c # s = p @ f @ q" by blast
    show "str_in f (c # s)"
    proof (cases p)
      case Nil
      then have "starts_with f (c # s)" using pq starts_with_iff by auto
      then show ?thesis by simp
    next
      case (Cons d p')
      then have "s = p' @ f @ q" using pq by simp
      then have "str_in f s" using Cons.IH by blast
      then show ?thesis by simp
    qed
  qed
qed

lemma str_in_empty: "str_in [] s"
  by (cases s) simp_all

lemma str_nat_small:
  "str_nat 0 = ''0''" "str_nat 1 = ''1''" "str_nat 2 = ''2''" "str_nat 3 = ''3''"
  by code_simp+

lemma str_nat_Suc:
  "str_nat (Suc 0) = ''1''" "str_nat (Suc (Suc 0)) = ''2''" "str_nat (Suc (Suc (Suc 0))) = ''3''"
  using str_nat_small by (simp_all add: numeral_2_eq_2 numeral_3_eq_3)

lemma wanted_iff:
  "wanted flt name \<longleftrightarrow> (case flt of None \<Rightarrow> True | Some f \<Rightarrow> \<exists>p q. name = p @ f @ q)"
  by (simp add: wanted_def str_in_iff split: option.splits)

subsection \<open>The selection loop\<close>

lemma select_loop_eq:
  "select_loop flt ops (funcs, sel, tot) st =
     ((funcs @ filter (\<lambda>e. wanted flt (fst e)) ops,
       sel + length (filter (\<lambda>e. wanted flt (fst e)) ops),
       tot + length ops),
      st\<lparr>log := log st @ map (\<lambda>e. select_line flt (fst e)) ops\<rparr>)"
  by (induction ops arbitrary: funcs sel tot st) (auto simp: print_def select_line_def)

lemma selection_eq:
  "selection flt ops st =
     ((filter (\<lambda>e. wanted flt (fst e)) ops,
       length (filter (\<lambda>e. wanted flt (fst e)) ops),
       length ops),
      st\<lparr>log := log st @ map (\<lambda>e. select_line flt (fst e)) ops @
         [Print (summary_line (length (filter (\<lambda>e. wanted flt (fst e)) ops)) (length ops))]\<rparr>)"
  by (simp add: selection_def select_loop_eq print_def)

subsection \<open>The execution loop\<close>

text \<open>One step of the loop, whatever the outcome of the call.\<close>

lemma exec_loop_step:
  assumes "func a (world st) = (res, w)"
  shows "exec_loop a n i ((name, func) # rest) st =
     (if recoverable res
      then exec_loop a n (Suc i) rest \<lparr>log = log st @ block n i name res, world = w\<rparr>
      else (Propagated (case res of Raises err \<Rightarrow>
                          (if is_Exception err
                           then (case str_of err of Inl err' \<Rightarrow> err' | Inr msg \<Rightarrow> err)
                           else err)),
            \<lparr>log = log st @ block n i name res, world = w\<rparr>))"
  using assms
  by (cases st)
     (auto simp add: recoverable_def print_def print_exc_def block_def report_def
        failed_line_def Let_def split: outcome.splits sum.splits)

lemma outcomes_step:
  "func a w = (res, w') \<Longrightarrow>
   outcomes a ((name, func) # rest) w = res # (if recoverable res then outcomes a rest w' else [])"
  by simp

lemma blocks_Nil: "blocks n i plan [] = []"
  by (cases plan) auto

lemma exec_loop_log:
  "log (snd (exec_loop a n i plan st)) = log st @ blocks n i plan (outcomes a plan (world st))"
proof (induction plan arbitrary: i st)
  case Nil
  show ?case by simp
next
  case (Cons e plan)
  obtain name func where e: "e = (name, func)" by (cases e)
  obtain res w where r: "func a (world st) = (res, w)" by (cases "func a (world st)")
  show ?case
    unfolding e exec_loop_step[where func=func and a=a and st=st, OF r]
      outcomes_step[where func=func and a=a, OF r]
    by (simp add: Cons.IH blocks_Nil)
qed


lemma outcomes_length: "length (outcomes a plan w) \<le> length plan"
  by (induction plan arbitrary: w) (auto split: prod.splits)




lemma invocations_append: "invocations (xs @ ys) = invocations xs @ invocations ys"
  by (induction xs rule: invocations.induct) auto

lemma invocations_block: "invocations (block n i name r) = [(i, name)]"
  by (auto simp: block_def report_def split: outcome.splits sum.splits)

lemma invocations_blocks:
  "length rs \<le> length plan \<Longrightarrow>
   invocations (blocks n i plan rs) = zip [i..<i + length rs] (map fst plan)"
proof (induction n i plan rs rule: blocks.induct)
  case (1 n i name func rest r rs)
  then show ?case by (simp add: invocations_append invocations_block upt_rec)
qed auto




lemma blocks_concat:
  "blocks n i plan rs =
     concat (map (\<lambda>(j, e, r). block n j (fst e) r) (zip [i..<i + length plan] (zip plan rs)))"
proof (induction n i plan rs rule: blocks.induct)
  case (1 n i name func rest r rs)
  then show ?case by (simp add: upt_rec)
qed auto



subsection \<open>The whole of \<^verbatim>\<open>main\<close>\<close>

lemma main_eq:
  "main a ops st =
     exec_loop a (length (filter (\<lambda>e. wanted (only_run a) (fst e)) ops)) 0
       (filter (\<lambda>e. wanted (only_run a) (fst e)) ops)
       (snd (selection (only_run a) ops st))"
  by (simp add: main_def selection_eq)

lemma selection_world: "world (snd (selection flt ops st)) = world st"
  by (simp add: selection_eq)

section \<open>The claims\<close>

text \<open>
  C1. For every sequence of entries and every filter value, the plan that the selection
  pass hands to the execution loop holds exactly the entries whose name contains the filter
  as a contiguous, case-sensitive run of characters, or every entry when the filter is
  \<^verbatim>\<open>None\<close>, in the order of the sequence. With the filter unset the plan is the whole
  sequence and both counts are its length.
\<close>

theorem selection_is_filter:
  "fst (fst (selection flt ops st)) =
     filter (\<lambda>e. case flt of None \<Rightarrow> True | Some f \<Rightarrow> \<exists>p q. fst e = p @ f @ q) ops
   \<and> fst (selection None ops st) = (ops, length ops, length ops)
   \<and> main a ops st =
       exec_loop a (length (fst (fst (selection (only_run a) ops st)))) 0
         (fst (fst (selection (only_run a) ops st))) (snd (selection (only_run a) ops st))"
proof -
  have "fst (fst (selection flt ops st)) =
     filter (\<lambda>e. case flt of None \<Rightarrow> True | Some f \<Rightarrow> \<exists>p q. fst e = p @ f @ q) ops"
    by (simp add: selection_eq wanted_iff)
  moreover have "fst (selection None ops st) = (ops, length ops, length ops)"
    by (simp add: selection_eq wanted_def)
  moreover have "main a ops st =
       exec_loop a (length (fst (fst (selection (only_run a) ops st)))) 0
         (fst (fst (selection (only_run a) ops st))) (snd (selection (only_run a) ops st))"
    by (simp add: main_def split: prod.splits)
  ultimately show ?thesis by blast
qed







text \<open>
  C4. For every sequence of entries and every filter, the plan is the sequence with the
  entries that fail the test of line 22 left out, so its order is the order of the sequence.
  What \<^verbatim>\<open>main\<close> does after the selection pass is, for the planned entries in plan order
  and up to the last one called: the line \<^verbatim>\<open>[i/n] Benchmarking <name>\<close>, with \<open>i\<close> the
  1-based position of the entry and \<open>n\<close> the length of the plan, then the call of the entry,
  then what the handler prints for that call.
\<close>

theorem execution_order_and_progress:
  "fst (fst (selection (only_run a) ops st)) = filter (\<lambda>e. wanted (only_run a) (fst e)) ops \<and>
   log (snd (main a ops st)) =
     log (snd (selection (only_run a) ops st)) @
     concat (map (\<lambda>(i, e, r).
                   [Print (''['' @ str_nat (i + 1) @ ''/'' @
                           str_nat (length (filter (\<lambda>e. wanted (only_run a) (fst e)) ops)) @
                           ''] Benchmarking '' @ fst e),
                    Invoke i (fst e)] @ report (fst e) r)
       (zip [0..<length (filter (\<lambda>e. wanted (only_run a) (fst e)) ops)]
          (zip (filter (\<lambda>e. wanted (only_run a) (fst e)) ops)
             (outcomes a (filter (\<lambda>e. wanted (only_run a) (fst e)) ops) (world st))))) \<and>
   invocations (drop (length (log (snd (selection (only_run a) ops st)))) (log (snd (main a ops st)))) =
     zip [0..<length (outcomes a (filter (\<lambda>e. wanted (only_run a) (fst e)) ops) (world st))]
       (map fst (filter (\<lambda>e. wanted (only_run a) (fst e)) ops))"
proof -
  let ?P = "filter (\<lambda>e. wanted (only_run a) (fst e)) ops"
  let ?rs = "outcomes a ?P (world st)"
  have a1: "fst (fst (selection (only_run a) ops st)) = ?P"
    by (simp add: selection_eq)
  have a2: "log (snd (main a ops st)) =
     log (snd (selection (only_run a) ops st)) @ blocks (length ?P) 0 ?P ?rs"
    by (simp add: main_eq exec_loop_log selection_world)
  have "blocks (length ?P) 0 ?P ?rs =
     concat (map (\<lambda>(i, e, r). block (length ?P) i (fst e) r)
       (zip [0..<0 + length ?P] (zip ?P ?rs)))"
    by (rule blocks_concat)
  also have "\<dots> = concat (map (\<lambda>(i, e, r).
                   [Print (''['' @ str_nat (i + 1) @ ''/'' @ str_nat (length ?P) @
                           ''] Benchmarking '' @ fst e),
                    Invoke i (fst e)] @ report (fst e) r)
       (zip [0..<length ?P] (zip ?P ?rs)))"
    by (simp add: block_def progress_line_def)
  finally have a2': "log (snd (main a ops st)) =
     log (snd (selection (only_run a) ops st)) @
     concat (map (\<lambda>(i, e, r).
                   [Print (''['' @ str_nat (i + 1) @ ''/'' @ str_nat (length ?P) @
                           ''] Benchmarking '' @ fst e),
                    Invoke i (fst e)] @ report (fst e) r)
       (zip [0..<length ?P] (zip ?P ?rs)))"
    using a2 by simp
  have "invocations (blocks (length ?P) 0 ?P ?rs) = zip [0..<0 + length ?rs] (map fst ?P)"
    by (rule invocations_blocks) (rule outcomes_length)
  then have a3: "invocations (drop (length (log (snd (selection (only_run a) ops st))))
       (log (snd (main a ops st)))) = zip [0..<length ?rs] (map fst ?P)"
    using a2 by simp
  show ?thesis using a1 a2' a3 by blast
qed

text \<open>
  C5. When the filter is a string that occurs in no entry name, the plan is empty, the
  selected count is 0, the total is the number of entries, \<^verbatim>\<open>main\<close> returns, and all it
  has done is to print one \<^verbatim>\<open>Skipped\<close> line per entry and the summary
  \<^verbatim>\<open>Running selected 0/<total> ops\<close>: no runnable is called and the world is untouched.
\<close>

theorem zero_match:
  assumes "only_run a = Some f"
    and "\<forall>e \<in> set ops. \<not> (\<exists>p q. fst e = p @ f @ q)"
  shows "fst (selection (only_run a) ops st) = ([], 0, length ops) \<and>
         main a ops st =
           (Returned,
            st\<lparr>log := log st @ map (\<lambda>e. Print (''Skipped '' @ fst e)) ops @
                   [Print (''Running selected 0/'' @ str_nat (length ops) @ '' ops'')]\<rparr>) \<and>
         invocations (log (snd (main a ops st))) = invocations (log st)"
proof -
  have nw: "\<And>e. e \<in> set ops \<Longrightarrow> \<not> wanted (only_run a) (fst e)"
    using assms by (simp add: wanted_iff)
  then have fl: "filter (\<lambda>e. wanted (only_run a) (fst e)) ops = []"
    by (simp add: filter_empty_conv)
  have ln: "map (\<lambda>e. select_line (only_run a) (fst e)) ops =
            map (\<lambda>e. Print (''Skipped '' @ fst e)) ops"
    using nw by (simp add: select_line_def)
  have inv: "invocations (map (\<lambda>e. Print (''Skipped '' @ fst e)) ops) = []"
    by (induction ops) simp_all
  have s: "fst (selection (only_run a) ops st) = ([], 0, length ops)"
    using fl by (simp add: selection_eq)
  have m: "main a ops st =
           (Returned,
            st\<lparr>log := log st @ map (\<lambda>e. Print (''Skipped '' @ fst e)) ops @
                   [Print (''Running selected 0/'' @ str_nat (length ops) @ '' ops'')]\<rparr>)"
    using fl ln by (simp add: main_def selection_eq summary_line_def str_nat_small)
  have "invocations (log (snd (main a ops st))) = invocations (log st)"
    using inv by (simp add: m invocations_append)
  then show ?thesis using s m by blast
qed

text \<open>The three example entries under the filter \<^verbatim>\<open>conv\<close>.\<close>

theorem zero_match_witness:
  "only_run \<lparr>forward_only = True, only_run = Some ''conv''\<rparr> = Some ''conv'' \<and>
   main \<lparr>forward_only = True, only_run = Some ''conv''\<rparr> three_ops start =
     (Returned,
      \<lparr>log = [Print ''Skipped attn_fwd'', Print ''Skipped attn_bwd'', Print ''Skipped linear_fwd'',
              Print ''Running selected 0/3 ops''],
       world = 0\<rparr>)"
proof -
  have h1: "only_run \<lparr>forward_only = True, only_run = Some ''conv''\<rparr> = Some ''conv''"
    by simp
  have "\<forall>e \<in> set three_ops. \<not> str_in ''conv'' (fst e)"
    by (simp add: three_ops_def)
  then have h2: "\<forall>e \<in> set three_ops. \<not> (\<exists>p q. fst e = p @ ''conv'' @ q)"
    by (simp only: str_in_iff)
  show ?thesis
    using h1 h2 zero_match[OF h1 h2, of start]
    by (simp add: three_ops_def start_def str_nat_small str_nat_Suc)
qed

text \<open>
  C6. The selection pass prints, in the order of the sequence, exactly one line per entry,
  \<^verbatim>\<open>Selected <name>\<close> or \<^verbatim>\<open>Skipped <name>\<close>, and after them the one summary line
  \<^verbatim>\<open>Running selected <selected>/<total> ops\<close>; it calls no runnable and leaves the world
  as it was, and \<^verbatim>\<open>main\<close> starts the execution loop only in the state the pass has left.
\<close>

theorem selection_output:
  "log (snd (selection flt ops st)) =
     log st @
     map (\<lambda>e. Print ((if wanted flt (fst e) then ''Selected '' else ''Skipped '') @ fst e)) ops @
     [Print (''Running selected '' @ str_nat (length (filter (\<lambda>e. wanted flt (fst e)) ops)) @
             ''/'' @ str_nat (length ops) @ '' ops'')] \<and>
   invocations (log (snd (selection flt ops st))) = invocations (log st) \<and>
   world (snd (selection flt ops st)) = world st \<and>
   main a ops st =
     exec_loop a (length (fst (fst (selection (only_run a) ops st)))) 0
       (fst (fst (selection (only_run a) ops st))) (snd (selection (only_run a) ops st))"
proof -
  have ln: "map (\<lambda>e. select_line flt (fst e)) ops =
     map (\<lambda>e. Print ((if wanted flt (fst e) then ''Selected '' else ''Skipped '') @ fst e)) ops"
    by (simp add: select_line_def)
  have a1: "log (snd (selection flt ops st)) =
     log st @
     map (\<lambda>e. Print ((if wanted flt (fst e) then ''Selected '' else ''Skipped '') @ fst e)) ops @
     [Print (''Running selected '' @ str_nat (length (filter (\<lambda>e. wanted flt (fst e)) ops)) @
             ''/'' @ str_nat (length ops) @ '' ops'')]"
    using ln by (simp add: selection_eq summary_line_def)
  have "invocations (map (\<lambda>e. select_line flt (fst e)) ops) = []"
    by (induction ops) (simp_all add: select_line_def)
  then have a2: "invocations (log (snd (selection flt ops st))) = invocations (log st)"
    by (simp add: selection_eq invocations_append)
  have a3: "main a ops st =
     exec_loop a (length (fst (fst (selection (only_run a) ops st)))) 0
       (fst (fst (selection (only_run a) ops st))) (snd (selection (only_run a) ops st))"
    by (simp add: main_def split: prod.splits)
  show ?thesis using a1 a2 a3 selection_world by blast
qed




text \<open>
  C8. The selection pass takes nothing from the state it starts in: two runs on the same
  entries and the same filter, from any two states, return the same plan and counts and
  print the same lines; so does a second run right after a first one.
\<close>

theorem selection_deterministic:
  "fst (selection flt ops s1) = fst (selection flt ops s2) \<and>
   drop (length (log s1)) (log (snd (selection flt ops s1))) =
   drop (length (log s2)) (log (snd (selection flt ops s2))) \<and>
   fst (selection flt ops (snd (selection flt ops s1))) = fst (selection flt ops s1) \<and>
   log (snd (selection flt ops (snd (selection flt ops s1)))) =
     log s1 @ drop (length (log s1)) (log (snd (selection flt ops s1)))
            @ drop (length (log s1)) (log (snd (selection flt ops s1)))"
  by (simp add: selection_eq)

text \<open>
  C9. With the empty string as filter the selection pass does what it does with no filter:
  the same plan, counts, lines and state, and the plan is the whole sequence.
\<close>

theorem empty_filter_selects_all:
  "selection (Some []) ops st = selection None ops st \<and>
   fst (selection (Some []) ops st) = (ops, length ops, length ops)"
  by (simp add: selection_eq wanted_def str_in_empty select_line_def)



end
